theory Spec2Isabelle
  imports Main
begin

section \<open>The artwork browser of \<^verbatim>\<open>src/App.tsx\<close>\<close>

text \<open>
  The component keeps its state in React state variables and changes it in event
  handlers. Each handler is modelled as a function from the state before the event to the
  state after it: a handler reads the state variables of the render it was created in and
  its \<^verbatim>\<open>set...\<close> calls take effect together afterwards. That render is the one
  of the state before the event, except for the checkbox of a row, whose handler may be
  the one of an earlier render (\<open>handleCheckbox_bound\<close> below). Handlers run one at a
  time here; two asynchronous handlers overlapping is outside the model.

  JavaScript numbers are modelled as mathematical integers (\<open>int\<close>), or as \<open>nat\<close>
  for the counters that start at zero and only go up. Strings are lists of 8-bit
  characters. Console output is not modelled.
\<close>

subsection \<open>Data model\<close>

text \<open>The interface \<^verbatim>\<open>Artwork\<close>; its field \<^verbatim>\<open>id\<close> is \<open>id'\<close> here.\<close>

record Artwork =
  id' :: int
  title :: string
  place_of_origin :: string
  artist_display :: string
  inscriptions :: string
  date_start :: int
  date_end :: int

text \<open>The interface \<^verbatim>\<open>ApiResponse\<close>; the field \<^verbatim>\<open>total\<close> is \<open>total'\<close>.\<close>

record Pagination =
  total' :: int
  limit :: int
  offset :: int
  total_pages :: int
  current_page :: int

record ApiResponse =
  data :: "Artwork list"
  pagination :: Pagination

text \<open>
  What \<^verbatim>\<open>fetch(url)\<close> gives back: \<open>None\<close> when the promise is rejected, otherwise
  a response with its \<^verbatim>\<open>ok\<close> flag and the body that \<^verbatim>\<open>res.json()\<close> parses,
  taken to be of the declared type \<^verbatim>\<open>ApiResponse\<close>. The remote end is a parameter of
  the model: a function of the two query parameters, the 1-indexed page number and the
  limit. No handler asks for the same page twice, so a function describes any
  sequence of answers a handler can see.
\<close>

record Response =
  ok :: bool
  json :: ApiResponse

type_synonym remote = "nat \<Rightarrow> nat \<Rightarrow> Response option"

datatype fetch_error = FetchRejected | NetworkRequestFailed

text \<open>The notifications shown through \<^verbatim>\<open>toastRef\<close>. The detail is kept structured
  where the source builds it with a template literal.\<close>

datatype severity = Warn | Error | Success

datatype detail =
    Text string
  | OnlyAvailable int
  | SelectedRows nat
  | SelectedIDs "int list"

record Toast =
  severity :: severity
  summary :: string
  detail :: detail

text \<open>
  A JavaScript \<^verbatim>\<open>Set<number>\<close> is the list of its members in insertion order:
  \<^verbatim>\<open>add\<close> appends a member that is not there yet, \<^verbatim>\<open>delete\<close> removes it,
  \<^verbatim>\<open>has\<close> is membership, \<^verbatim>\<open>Array.from\<close> is the list itself.
\<close>

type_synonym id_set = "int list"

definition add :: "int \<Rightarrow> id_set \<Rightarrow> id_set" where
  "add x xs = (if x \<in> set xs then xs else xs @ [x])"

definition delete :: "int \<Rightarrow> id_set \<Rightarrow> id_set" where
  "delete x xs = removeAll x xs"

definition has :: "id_set \<Rightarrow> int \<Rightarrow> bool" where
  "has xs x = (x \<in> set xs)"

text \<open>
  The state variables of the component, and its two effects on the outside: the
  notifications shown so far and the arguments \<open>(page, rows)\<close> of every call of
  \<^verbatim>\<open>fetchData\<close> so far.
\<close>

record app_state =
  artworks :: "Artwork list"
  loading :: bool
  currentPage :: nat
  pageSize :: nat
  totalRecords :: int
  totalPages :: int
  selectedIds :: id_set
  isAllSelected :: bool
  showDropdown :: bool
  inputValue :: string
  toasts :: "Toast list"
  requests :: "(nat \<times> nat) list"

definition init :: app_state where
  "init = \<lparr>artworks = [], loading = False, currentPage = 0, pageSize = 10,
     totalRecords = 0, totalPages = 0, selectedIds = [], isAllSelected = False,
     showDropdown = False, inputValue = [], toasts = [], requests = []\<rparr>"

definition show_toast :: "Toast \<Rightarrow> app_state \<Rightarrow> app_state" where
  "show_toast t s = s\<lparr>toasts := toasts s @ [t]\<rparr>"

subsection \<open>Fetching and page navigation\<close>

definition fetchData :: "remote \<Rightarrow> nat \<Rightarrow> nat \<Rightarrow> fetch_error + ApiResponse" where
  "fetchData remote page rows =
     (case remote (page + 1) rows of
        None \<Rightarrow> Inl FetchRejected
      | Some res \<Rightarrow> if \<not> ok res then Inl NetworkRequestFailed else Inr (json res))"

definition pageIds :: "Artwork list \<Rightarrow> int list" where
  "pageIds pageData = map id' pageData"

definition updateSelectAllStatus :: "Artwork list \<Rightarrow> app_state \<Rightarrow> app_state" where
  "updateSelectAllStatus pageData s =
     s\<lparr>isAllSelected :=
         (length (pageIds pageData) > 0 \<and> list_all (has (selectedIds s)) (pageIds pageData))\<rparr>"

definition load_failed :: Toast where
  "load_failed = \<lparr>severity = Error, summary = ''Error'', detail = Text ''Failed to load data''\<rparr>"

definition loadPage :: "remote \<Rightarrow> nat \<Rightarrow> nat \<Rightarrow> app_state \<Rightarrow> app_state" where
  "loadPage remote page rows s =
     (let s1 = s\<lparr>loading := True, requests := requests s @ [(page, rows)]\<rparr>;
          s2 = (case fetchData remote page rows of
                  Inr d \<Rightarrow>
                    updateSelectAllStatus (data d)
                      (s1\<lparr>artworks := data d, currentPage := page, pageSize := rows,
                          totalRecords := total' (pagination d),
                          totalPages := total_pages (pagination d)\<rparr>)
                | Inl err \<Rightarrow> show_toast load_failed s1)
      in s2\<lparr>loading := False\<rparr>)"

subsection \<open>Row and page selection\<close>

definition handleCheckbox :: "int \<Rightarrow> bool \<Rightarrow> app_state \<Rightarrow> app_state" where
  "handleCheckbox i checked s =
     (let updatedIds = (if checked then add i (selectedIds s) else delete i (selectedIds s))
      in s\<lparr>selectedIds := updatedIds,
           isAllSelected := list_all (has updatedIds) (pageIds (artworks s))\<rparr>)"

definition handleSelectAll :: "bool \<Rightarrow> app_state \<Rightarrow> app_state" where
  "handleSelectAll checked s =
     (let updatedIds = fold (\<lambda>i. if checked then add i else delete i)
                         (pageIds (artworks s)) (selectedIds s)
      in s\<lparr>selectedIds := updatedIds, isAllSelected := checked\<rparr>)"

subsection \<open>\<^verbatim>\<open>parseInt\<close>\<close>

text \<open>
  \<^verbatim>\<open>parseInt(inputValue)\<close> with no radix: leading white space is skipped, one sign is
  read, a prefix \<^verbatim>\<open>0x\<close> or \<^verbatim>\<open>0X\<close> selects radix 16 (radix 10 otherwise), and
  the longest run of digits of that radix is the number; what follows the run is ignored.
  With no digit the result is \<^verbatim>\<open>NaN\<close>, here \<open>None\<close>. The white space characters
  are those with a code below 256. The result is the exact integer: JavaScript rounds it
  to a double, which changes neither comparison of \<^verbatim>\<open>selectRows\<close> as long as the
  total record count is an integer below \<open>2^53\<close>.
\<close>

definition isWhiteSpace :: "char \<Rightarrow> bool" where
  "isWhiteSpace c = (of_char c \<in> set [9, 10, 11, 12, 13, 32, 160 :: nat])"

definition digitValue :: "char \<Rightarrow> nat option" where
  "digitValue c =
     (let n = (of_char c :: nat) in
      if 48 \<le> n \<and> n \<le> 57 then Some (n - 48)
      else if 97 \<le> n \<and> n \<le> 122 then Some (n - 87)
      else if 65 \<le> n \<and> n \<le> 90 then Some (n - 55)
      else None)"

definition isDigit :: "nat \<Rightarrow> char \<Rightarrow> bool" where
  "isDigit R c = (case digitValue c of None \<Rightarrow> False | Some d \<Rightarrow> d < R)"

definition stripSign :: "string \<Rightarrow> int \<times> string" where
  "stripSign S =
     (case S of
        [] \<Rightarrow> (1, [])
      | c # rest \<Rightarrow>
          if c = CHR ''-'' then (- 1, rest)
          else if c = CHR ''+'' then (1, rest)
          else (1, S))"

definition stripPrefix :: "string \<Rightarrow> nat \<times> string" where
  "stripPrefix S =
     (case S of
        c # x # rest \<Rightarrow>
          if c = CHR ''0'' \<and> (x = CHR ''x'' \<or> x = CHR ''X'') then (16, rest) else (10, S)
      | _ \<Rightarrow> (10, S))"

definition mathInt :: "nat \<Rightarrow> string \<Rightarrow> nat" where
  "mathInt R Z = foldl (\<lambda>acc c. acc * R + (case digitValue c of None \<Rightarrow> 0 | Some d \<Rightarrow> d)) 0 Z"

definition parseInt :: "string \<Rightarrow> int option" where
  "parseInt inputString =
     (let (sign, S1) = stripSign (dropWhile isWhiteSpace inputString);
          (R, S2) = stripPrefix S1;
          Z = takeWhile (isDigit R) S2
      in if Z = [] then None else Some (sign * int (mathInt R Z)))"

subsection \<open>Selecting the first rows across pages\<close>

definition itemsPerPage :: nat where
  "itemsPerPage = 50"

text \<open>
  The local variables of the \<^verbatim>\<open>while\<close> loop of \<^verbatim>\<open>selectRows\<close>, with two
  records of what the loop did: \<open>calls\<close>, the arguments of every \<^verbatim>\<open>fetchData\<close>
  call, and \<open>taken\<close>, for every page fetched its index and the identifiers that the
  inner \<^verbatim>\<open>for\<close> loop passed to \<^verbatim>\<open>updatedIds.add\<close>, in order.
\<close>

record loop_vars =
  updatedIds :: id_set
  itemsSelected :: nat
  page :: nat
  calls :: "(nat \<times> nat) list"
  taken :: "(nat \<times> int list) list"

text \<open>
  The loop returns the exception that left it, if any, and the variables as they are
  then. The inner \<^verbatim>\<open>for\<close> loop runs over the first \<^verbatim>\<open>itemsToTake\<close> records of
  the page, which exist since \<^verbatim>\<open>itemsToTake\<close> is at most the length of the page.
\<close>

function while_loop :: "remote \<Rightarrow> int \<Rightarrow> loop_vars \<Rightarrow> fetch_error option \<times> loop_vars" where
  "while_loop remote num v =
     (if int (itemsSelected v) < num then
        (let v1 = v\<lparr>calls := calls v @ [(page v, itemsPerPage)]\<rparr> in
         case fetchData remote (page v) itemsPerPage of
           Inl err \<Rightarrow> (Some err, v1)
         | Inr d \<Rightarrow>
             (let itemsToTake = min (nat (num - int (itemsSelected v))) (length (data d));
                  ids = map id' (take itemsToTake (data d));
                  v2 = v1\<lparr>updatedIds := fold add ids (updatedIds v),
                          itemsSelected := itemsSelected v + itemsToTake,
                          taken := taken v @ [(page v, ids)]\<rparr>
              in if length (data d) < itemsPerPage then (None, v2)
                 else while_loop remote num (v2\<lparr>page := page v + 1\<rparr>)))
      else (None, v))"
  by pat_completeness auto
termination
  by (relation "measure (\<lambda>(remote, num, v). nat (num - int (itemsSelected v)))")
     (auto simp: itemsPerPage_def)

declare while_loop.simps [simp del]

definition invalid_input :: Toast where
  "invalid_input =
     \<lparr>severity = Warn, summary = ''Invalid input'', detail = Text ''Enter a valid number''\<rparr>"

definition too_many_rows :: "int \<Rightarrow> Toast" where
  "too_many_rows n = \<lparr>severity = Warn, summary = ''Too many rows'', detail = OnlyAvailable n\<rparr>"

definition selected_rows :: "nat \<Rightarrow> Toast" where
  "selected_rows n = \<lparr>severity = Success, summary = ''Success'', detail = SelectedRows n\<rparr>"

definition selection_failed :: Toast where
  "selection_failed =
     \<lparr>severity = Error, summary = ''Error'', detail = Text ''Selection failed''\<rparr>"

definition loop_init :: "app_state \<Rightarrow> loop_vars" where
  "loop_init s =
     \<lparr>updatedIds = selectedIds s, itemsSelected = 0, page = 0, calls = [], taken = []\<rparr>"

text \<open>
  \<^verbatim>\<open>!num || isNaN(num) || num <= 0\<close> holds for \<^verbatim>\<open>NaN\<close>, for zero and for a
  negative number.
\<close>

definition selectRows :: "remote \<Rightarrow> app_state \<Rightarrow> app_state" where
  "selectRows remote s =
     (case parseInt (inputValue s) of
        None \<Rightarrow> show_toast invalid_input s
      | Some num \<Rightarrow>
          if num = 0 \<or> num \<le> 0 then show_toast invalid_input s
          else if num > totalRecords s then show_toast (too_many_rows (totalRecords s)) s
          else
            (let (exn, v) = while_loop remote num (loop_init s);
                 s1 = s\<lparr>loading := True, requests := requests s @ calls v\<rparr>;
                 s2 = (case exn of
                         None \<Rightarrow>
                           show_toast (selected_rows (itemsSelected v))
                             (s1\<lparr>selectedIds := updatedIds v,
                                 isAllSelected :=
                                   list_all (has (updatedIds v)) (map id' (artworks s))\<rparr>)
                       | Some err \<Rightarrow> show_toast selection_failed s1)
             in s2\<lparr>loading := False, showDropdown := False, inputValue := []\<rparr>))"

subsection \<open>Submitting\<close>

definition no_selection :: Toast where
  "no_selection =
     \<lparr>severity = Warn, summary = ''No selection'', detail = Text ''Select rows first''\<rparr>"

definition submitted :: "int list \<Rightarrow> Toast" where
  "submitted ids = \<lparr>severity = Success, summary = ''Submitted'', detail = SelectedIDs ids\<rparr>"

definition submitSelection :: "app_state \<Rightarrow> app_state" where
  "submitSelection s =
     (if length (selectedIds s) = 0 then show_toast no_selection s
      else (show_toast (submitted (selectedIds s)) s)\<lparr>showDropdown := False, inputValue := []\<rparr>)"

subsection \<open>The events of the component\<close>

text \<open>
  The handlers that the rendered elements are bound to: the paginator
  (\<^verbatim>\<open>onPageChange\<close>), a row's checkbox, the header checkbox, the chevron that opens and
  closes the popover, its text field and its two buttons. Every event may meet a
  different remote end, and every event is taken to be possible in every state: a row's
  checkbox may carry any identifier and any value. In \<open>handle\<close> every handler is the one
  that the render of the current state has created.
\<close>

definition onPageChange :: "remote \<Rightarrow> nat \<Rightarrow> nat \<Rightarrow> app_state \<Rightarrow> app_state" where
  "onPageChange remote event_page event_rows s = loadPage remote event_page event_rows s"

datatype event =
    PageChange nat nat
  | RowCheckbox int bool
  | HeaderCheckbox bool
  | ChevronClick
  | InputChange string
  | SelectButton
  | SubmitButton

fun handle :: "remote \<Rightarrow> event \<Rightarrow> app_state \<Rightarrow> app_state" where
  "handle remote (PageChange p r) s = onPageChange remote p r s"
| "handle remote (RowCheckbox i checked) s = handleCheckbox i checked s"
| "handle remote (HeaderCheckbox checked) s = handleSelectAll checked s"
| "handle remote ChevronClick s = s\<lparr>showDropdown := \<not> showDropdown s\<rparr>"
| "handle remote (InputChange v) s = s\<lparr>inputValue := v\<rparr>"
| "handle remote SelectButton s = selectRows remote s"
| "handle remote SubmitButton s = submitSelection s"

text \<open>
  \<^verbatim>\<open>handleCheckbox\<close> reads \<^verbatim>\<open>selectedIds\<close> and \<^verbatim>\<open>artworks\<close> as they were in the
  render that created it, and its calls of \<^verbatim>\<open>setSelectedIds\<close> and
  \<^verbatim>\<open>setIsAllSelected\<close> change these two variables of the component. The table draws
  the cell of a row with \<^verbatim>\<open>checkboxTemplate\<close>, and a cell that it does not draw again
  keeps the handler of the render that drew it last. So the handler of a row's checkbox
  may have been created in the render of an earlier state \<open>c\<close> than the state \<open>s\<close> in
  which it is called:
\<close>

definition handleCheckbox_bound :: "app_state \<Rightarrow> int \<Rightarrow> bool \<Rightarrow> app_state \<Rightarrow> app_state" where
  "handleCheckbox_bound c i checked s =
     s\<lparr>selectedIds := selectedIds (handleCheckbox i checked c),
       isAllSelected := isAllSelected (handleCheckbox i checked c)\<rparr>"

text \<open>
  The states the component can be in between two events: the initial state, the state
  after the first load that \<^verbatim>\<open>useEffect\<close> starts, every state an event leads to, and
  every state that a row's checkbox leads to with a handler that was created in the
  render of a reachable state. When the table draws a cell again is not part of this
  repository, so the render that created the handler is not restricted further.
\<close>

inductive reachable :: "app_state \<Rightarrow> bool" where
  initial: "reachable init"
| mounted: "reachable (loadPage remote 0 10 init)"
| event: "reachable s \<Longrightarrow> reachable (handle remote e s)"
| bound_row: "reachable c \<Longrightarrow> reachable s \<Longrightarrow> reachable (handleCheckbox_bound c i checked s)"



subsection \<open>A remote end that serves a fixed dataset\<close>

text \<open>
  Modelled from the spec: the remote collection endpoint, which is not part of the
  repository. It answers the 1-indexed page number \<open>n\<close> and the limit \<open>l\<close> with the
  records \<open>(n - 1) * l\<close> up to \<open>n * l\<close> of the dataset, as many as there are, and with
  the pagination metadata of that page.
\<close>

definition paged_remote :: "Artwork list \<Rightarrow> remote" where
  "paged_remote ds n l =
     Some \<lparr>ok = True,
           json = \<lparr>data = take l (drop ((n - 1) * l) ds),
                   pagination = \<lparr>total' = int (length ds), limit = int l,
                                  offset = int ((n - 1) * l),
                                  total_pages = int ((length ds + l - 1) div l),
                                  current_page = int n\<rparr>\<rparr>\<rparr>"

text \<open>
  Page \<open>q\<close> of the dataset as \<^verbatim>\<open>selectRows\<close> asks for it, and the number of pages
  that hold the first \<open>N\<close> records.
\<close>

definition page_of :: "Artwork list \<Rightarrow> nat \<Rightarrow> Artwork list" where
  "page_of ds q = take itemsPerPage (drop (q * itemsPerPage) ds)"

definition pages_needed :: "nat \<Rightarrow> nat" where
  "pages_needed N = (N + itemsPerPage - 1) div itemsPerPage"

text \<open>A remote end that answers every page after the first \<open>k\<close> with a status that is
  not \<^verbatim>\<open>ok\<close>.\<close>

definition failing_after :: "nat \<Rightarrow> remote \<Rightarrow> remote" where
  "failing_after k remote n l =
     (if k < n
      then Some \<lparr>ok = False,
                 json = \<lparr>data = [],
                         pagination = \<lparr>total' = 0, limit = 0, offset = 0, total_pages = 0,
                                        current_page = 0\<rparr>\<rparr>\<rparr>
      else remote n l)"

text \<open>A dataset of \<open>n\<close> records with the identifiers \<open>1\<close> to \<open>n\<close>.\<close>

definition sample_artwork :: "nat \<Rightarrow> Artwork" where
  "sample_artwork i =
     \<lparr>id' = int i, title = ''Untitled'', place_of_origin = ''Unknown'',
      artist_display = ''Unknown Artist'', inscriptions = [], date_start = 0, date_end = 0\<rparr>"

definition sample_dataset :: "nat \<Rightarrow> Artwork list" where
  "sample_dataset n = map sample_artwork [1..<Suc n]"

text \<open>The variables of the loop after the body has run on the page \<open>d\<close>, before
  \<^verbatim>\<open>page++\<close>.\<close>

definition after_page :: "int \<Rightarrow> ApiResponse \<Rightarrow> loop_vars \<Rightarrow> loop_vars" where
  "after_page num d v =
     (let itemsToTake = min (nat (num - int (itemsSelected v))) (length (data d));
          ids = map id' (take itemsToTake (data d))
      in v\<lparr>calls := calls v @ [(page v, itemsPerPage)],
           updatedIds := fold add ids (updatedIds v),
           itemsSelected := itemsSelected v + itemsToTake,
           taken := taken v @ [(page v, ids)]\<rparr>)"

text \<open>
  States of the component for the examples below. In the first the initial load has
  shown the first ten of 128 records and \<^verbatim>\<open>75\<close> has been typed into the input
  field; in the second the third row has been checked as well and the input field holds
  \<^verbatim>\<open>128\<close>; in the third the input field holds \<^verbatim>\<open>12abc\<close>.
\<close>

definition scenario_128 :: app_state where
  "scenario_128 =
     handle (paged_remote (sample_dataset 128)) (InputChange ''75'')
       (loadPage (paged_remote (sample_dataset 128)) 0 10 init)"

definition scenario_full :: app_state where
  "scenario_full =
     handle (paged_remote (sample_dataset 128)) (InputChange ''128'')
       (handle (paged_remote (sample_dataset 128)) (RowCheckbox 3 True)
          (loadPage (paged_remote (sample_dataset 128)) 0 10 init))"

definition scenario_12abc :: app_state where
  "scenario_12abc =
     handle (paged_remote (sample_dataset 128)) (InputChange ''12abc'')
       (loadPage (paged_remote (sample_dataset 128)) 0 10 init)"






section \<open>Properties\<close>

subsection \<open>Sets of identifiers\<close>

lemma set_add: "set (add x xs) = insert x (set xs)"
  by (auto simp: add_def)

lemma set_delete: "set (delete x xs) = set xs - {x}"
  by (auto simp: delete_def)

lemma set_fold_add: "set (fold add ys xs) = set xs \<union> set ys"
  by (induction ys arbitrary: xs) (auto simp: set_add)

lemma set_fold_delete: "set (fold delete ys xs) = set xs - set ys"
  by (induction ys arbitrary: xs) (auto simp: set_delete)

lemma list_all_has: "list_all (has ids) xs = (set xs \<subseteq> set ids)"
  by (auto simp: list_all_iff has_def)

subsection \<open>Reading the number of rows\<close>

lemmas parseInt_defs =
  parseInt_def stripSign_def stripPrefix_def isWhiteSpace_def isDigit_def digitValue_def
  mathInt_def

lemma parseInt_75: "parseInt ''75'' = Some 75"
  by (simp add: parseInt_defs)

lemma parseInt_200: "parseInt ''200'' = Some 200"
  by (simp add: parseInt_defs)

lemma parseInt_abc: "parseInt ''abc'' = None"
  by (simp add: parseInt_defs)

lemma parseInt_0: "parseInt ''0'' = Some 0"
  by (simp add: parseInt_defs)

lemma parseInt_minus_5: "parseInt ''-5'' = Some (- 5)"
  by (simp add: parseInt_defs)

text \<open>A number followed by other characters is read as the number.\<close>

lemma parseInt_12abc: "parseInt ''12abc'' = Some 12"
  by (simp add: parseInt_defs)

subsection \<open>Page navigation keeps the selection\<close>

text \<open>
  C10. Loading a page, whatever the page index and the page size and whether the fetch
  succeeds or fails, leaves the selection set as it is, and with it the popover and its
  input field.
\<close>

theorem loadPage_keeps_selection:
  "selectedIds (loadPage remote p r s) = selectedIds s \<and>
   showDropdown (loadPage remote p r s) = showDropdown s \<and>
   inputValue (loadPage remote p r s) = inputValue s"
  by (simp add: loadPage_def Let_def updateSelectAllStatus_def show_toast_def split: sum.splits)

subsection \<open>Submitting an empty selection\<close>

text \<open>
  C9. With an empty selection set \<^verbatim>\<open>submitSelection\<close> shows the warning
  \<^verbatim>\<open>No selection\<close> and does nothing else: every state variable keeps its value and
  no other notification is shown.
\<close>

theorem submitSelection_empty:
  "selectedIds s = [] \<Longrightarrow>
   submitSelection s = s\<lparr>toasts := toasts s @ [no_selection]\<rparr> \<and> severity no_selection = Warn"
  by (simp add: submitSelection_def show_toast_def no_selection_def)

theorem submitSelection_empty_witness:
  "selectedIds init = [] \<and>
   submitSelection init = init\<lparr>toasts := [no_selection]\<rparr> \<and> severity no_selection = Warn"
  using submitSelection_empty [of init] by (simp add: init_def)

subsection \<open>Rejected input of \<^verbatim>\<open>selectRows\<close>\<close>

text \<open>
  C4. When the number read from the input field is greater than the total record count,
  \<^verbatim>\<open>selectRows\<close> shows one warning and changes nothing else: no state variable
  changes and no page is fetched. The warning is \<^verbatim>\<open>Too many rows\<close> for a positive
  number.
\<close>

theorem selectRows_too_many:
  "parseInt (inputValue s) = Some n \<Longrightarrow> n > totalRecords s \<Longrightarrow>
   selectRows remote s =
     s\<lparr>toasts := toasts s @
          [if n \<le> 0 then invalid_input else too_many_rows (totalRecords s)]\<rparr> \<and>
   severity (if n \<le> 0 then invalid_input else too_many_rows (totalRecords s)) = Warn"
  by (simp add: selectRows_def show_toast_def invalid_input_def too_many_rows_def)

theorem selectRows_too_many_witness:
  "parseInt (inputValue (init\<lparr>inputValue := ''200'', totalRecords := 128\<rparr>)) = Some 200 \<and>
   200 > totalRecords (init\<lparr>inputValue := ''200'', totalRecords := 128\<rparr>) \<and>
   selectRows (paged_remote []) (init\<lparr>inputValue := ''200'', totalRecords := 128\<rparr>) =
     init\<lparr>inputValue := ''200'', totalRecords := 128, toasts := [too_many_rows 128]\<rparr>"
  using selectRows_too_many [of "init\<lparr>inputValue := ''200'', totalRecords := 128\<rparr>" 200 "paged_remote []"]
  by (simp add: parseInt_200 init_def)

subsection \<open>Checkboxes\<close>


text \<open>
  C7. The header checkbox adds, when checked, and removes, when unchecked, the
  identifiers of the records on the displayed page and no others: membership of an
  identifier that is not on the page does not change. It sets the flag to the value of
  the checkbox and changes no other state variable.
\<close>

theorem handleSelectAll_page_only:
  "set (selectedIds (handleSelectAll True s)) = set (selectedIds s) \<union> id' ` set (artworks s) \<and>
   set (selectedIds (handleSelectAll False s)) = set (selectedIds s) - id' ` set (artworks s) \<and>
   set (selectedIds (handleSelectAll checked s)) - id' ` set (artworks s) =
     set (selectedIds s) - id' ` set (artworks s) \<and>
   isAllSelected (handleSelectAll checked s) = checked \<and>
   handleSelectAll checked s =
     s\<lparr>selectedIds := selectedIds (handleSelectAll checked s), isAllSelected := checked\<rparr>"
  by (cases checked)
    (auto simp: handleSelectAll_def Let_def set_fold_add set_fold_delete pageIds_def)

subsection \<open>The remote end and the loop of \<^verbatim>\<open>selectRows\<close>\<close>

lemma fetchData_paged:
  "fetchData (paged_remote ds) q l =
     Inr \<lparr>data = take l (drop (q * l) ds),
          pagination = \<lparr>total' = int (length ds), limit = int l, offset = int (q * l),
             total_pages = int ((length ds + l - 1) div l), current_page = int (q + 1)\<rparr>\<rparr>"
  by (simp add: fetchData_def paged_remote_def)

lemma fetchData_failing_after:
  "fetchData (failing_after k remote) q l =
     (if k \<le> q then Inl NetworkRequestFailed else fetchData remote q l)"
  by (simp add: fetchData_def failing_after_def)

lemma take_drop_split:
  "take 50 (drop a ds) @ take (m - 50) (drop (a + 50) ds) = take m (drop a ds)" if "50 \<le> m" for m a :: nat
proof -
  have "take m (drop a ds) = take (50 + (m - 50)) (drop a ds)" using that by simp
  also have "\<dots> = take 50 (drop a ds) @ take (m - 50) (drop 50 (drop a ds))"
    by (simp only: take_add)
  finally show ?thesis by (simp add: add.commute)
qed

lemma while_loop_done:
  "\<not> int (itemsSelected v) < num \<Longrightarrow> while_loop remote num v = (None, v)"
  by (subst while_loop.simps) simp

lemma while_loop_error:
  "int (itemsSelected v) < num \<Longrightarrow> fetchData remote (page v) itemsPerPage = Inl err \<Longrightarrow>
   while_loop remote num v = (Some err, v\<lparr>calls := calls v @ [(page v, itemsPerPage)]\<rparr>)"
  by (subst while_loop.simps) simp

lemma while_loop_short:
  "int (itemsSelected v) < num \<Longrightarrow> fetchData remote (page v) itemsPerPage = Inr d \<Longrightarrow>
   length (data d) < itemsPerPage \<Longrightarrow>
   while_loop remote num v = (None, after_page num d v)"
  by (subst while_loop.simps) (simp add: after_page_def Let_def)

lemma while_loop_full:
  "int (itemsSelected v) < num \<Longrightarrow> fetchData remote (page v) itemsPerPage = Inr d \<Longrightarrow>
   \<not> length (data d) < itemsPerPage \<Longrightarrow>
   while_loop remote num v = while_loop remote num ((after_page num d v)\<lparr>page := page v + 1\<rparr>)"
  by (subst while_loop.simps) (simp add: after_page_def Let_def)

lemma while_loop_paged:
  assumes "N \<le> length ds" "itemsSelected v = page v * 50" "page v * 50 < N"
  shows "(case while_loop (paged_remote ds) (int N) v of (exn, w) \<Rightarrow>
     exn = None \<and>
     updatedIds w = fold add (map id' (take (N - page v * 50) (drop (page v * 50) ds))) (updatedIds v) \<and>
     itemsSelected w = N \<and>
     calls w = calls v @ map (\<lambda>q. (q, 50)) [page v..<pages_needed N] \<and>
     taken w = taken v @ map (\<lambda>q. (q, map id' (take (min (N - q * 50) 50) (drop (q * 50) ds))))
                     [page v..<pages_needed N])"
  using assms
proof (induction "N - page v * 50" arbitrary: v rule: less_induct)
  case less
  let ?p = "page v"
  obtain d where d: "fetchData (paged_remote ds) ?p itemsPerPage = Inr d"
     "data d = take 50 (drop (?p * 50) ds)"
    by (simp add: fetchData_paged itemsPerPage_def)
  have len: "length (data d) = min 50 (length ds - ?p * 50)" using d by simp
  have lt: "int (itemsSelected v) < int N" using less.prems by simp
  show ?case
  proof (cases "N - ?p * 50 \<le> 50")
    case True
    then have K: "pages_needed N = ?p + 1" using less.prems
      by (simp add: pages_needed_def itemsPerPage_def) 
    have t: "min (nat (int N - int (itemsSelected v))) (length (data d)) = N - ?p * 50"
      using True less.prems len by auto
    have ap: "after_page (int N) d v = v\<lparr>calls := calls v @ [(?p, 50)],
           updatedIds := fold add (map id' (take (N - ?p * 50) (drop (?p * 50) ds))) (updatedIds v),
           itemsSelected := N,
           taken := taken v @ [(?p, map id' (take (N - ?p * 50) (drop (?p * 50) ds)))]\<rparr>"
      unfolding after_page_def Let_def t using less.prems d(2) True
      by (simp add: itemsPerPage_def min_absorb1)
    have m: "min (N - ?p * 50) 50 = N - ?p * 50" using True by simp
    show ?thesis
    proof (cases "length (data d) < itemsPerPage")
      case True
      show ?thesis
        by (simp add: while_loop_short[OF lt d(1) True] ap K m)
    next
      case False
      have "while_loop (paged_remote ds) (int N) v
          = (None, (after_page (int N) d v)\<lparr>page := ?p + 1\<rparr>)"
        by (simp add: while_loop_full[OF lt d(1) False] while_loop_done ap)
      then show ?thesis by (simp add: ap K m)
    qed
  next
    case False
    then have big: "50 < N - ?p * 50" by simp
    have K: "?p < pages_needed N" "Suc ?p < pages_needed N \<or> True" using big
      by (simp_all add: pages_needed_def itemsPerPage_def)
    have len50: "length (data d) = 50" using len big less.prems by simp
    have t: "min (nat (int N - int (itemsSelected v))) (length (data d)) = 50"
      using big less.prems len50 by auto
    define v' where "v' = v\<lparr>calls := calls v @ [(?p, 50)],
        updatedIds := fold add (map id' (take 50 (drop (?p * 50) ds))) (updatedIds v),
        itemsSelected := itemsSelected v + 50,
        taken := taken v @ [(?p, map id' (take 50 (drop (?p * 50) ds)))],
        page := ?p + 1\<rparr>"
    have "\<not> length (data d) < itemsPerPage" using len50 by (simp add: itemsPerPage_def)
    from while_loop_full[OF lt d(1) this]
    have step: "while_loop (paged_remote ds) (int N) v = while_loop (paged_remote ds) (int N) v'"
      unfolding after_page_def Let_def t v'_def using d(2)
      by (simp add: itemsPerPage_def)
    have p': "page v' = ?p + 1" "itemsSelected v' = page v' * 50" "page v' * 50 < N"
      "N - page v' * 50 < N - ?p * 50"
      using less.prems big by (simp_all add: v'_def)
    note IH = less.hyps[OF p'(4) less.prems(1) p'(2) p'(3)]
    have ids: "fold add (map id' (take (N - page v' * 50) (drop (page v' * 50) ds))) (updatedIds v')
       = fold add (map id' (take (N - ?p * 50) (drop (?p * 50) ds))) (updatedIds v)"
    proof -
      have "take (N - ?p * 50) (drop (?p * 50) ds)
          = take 50 (drop (?p * 50) ds) @ take (N - ?p * 50 - 50) (drop (?p * 50 + 50) ds)"
        using take_drop_split[of "N - ?p * 50" "?p * 50" ds] big by simp
      then show ?thesis by (simp add: v'_def p'(1) add.commute)
    qed
    have upt: "[?p..<pages_needed N] = ?p # [page v'..<pages_needed N]"
      using K(1) p'(1) by (simp add: upt_conv_Cons)
    have m: "min (N - ?p * 50) 50 = 50" using big by simp
    show ?thesis
      using IH unfolding step ids upt
      by (auto simp add: v'_def m)
  qed
qed


lemma sample_dataset_length: "length (sample_dataset n) = n"
  by (simp add: sample_dataset_def)

lemma sample_dataset_distinct: "distinct (map id' (sample_dataset n))"
  by (simp add: sample_dataset_def sample_artwork_def distinct_map inj_on_def comp_def)

lemma scenario_128_fields:
  "inputValue scenario_128 = ''75''" "totalRecords scenario_128 = 128"
  "selectedIds scenario_128 = []" "requests scenario_128 = [(0, 10)]"
  "toasts scenario_128 = []" "reachable scenario_128"
proof -
  show "reachable scenario_128"
    unfolding scenario_128_def by (rule reachable.event) (rule reachable.mounted)
qed (simp_all add: scenario_128_def loadPage_def Let_def fetchData_paged updateSelectAllStatus_def
      init_def sample_dataset_length)

text \<open>The loop ends with an exception only when its last call of \<^verbatim>\<open>fetchData\<close> has
  failed, and the exception is the one of that call.\<close>

lemma while_loop_exception_is_failed_fetch:
  "fst (while_loop remote num v) = Some err \<Longrightarrow>
   \<exists>p\<ge>page v. fetchData remote p itemsPerPage = Inl err \<and>
     last (calls (snd (while_loop remote num v))) = (p, itemsPerPage)"
proof (induction remote num v rule: while_loop.induct)
  case (1 remote num v)
  show ?case
  proof (cases "int (itemsSelected v) < num")
    case False
    with "1.prems" show ?thesis by (simp add: while_loop_done)
  next
    case lt: True
    show ?thesis
    proof (cases "fetchData remote (page v) itemsPerPage")
      case (Inl e)
      with lt "1.prems" show ?thesis
        by (auto simp: while_loop_error)
    next
      case (Inr d)
      show ?thesis
      proof (cases "length (data d) < itemsPerPage")
        case True
        with lt Inr "1.prems" show ?thesis by (simp add: while_loop_short)
      next
        case False
        let ?v' = "(after_page num d v)\<lparr>page := page v + 1\<rparr>"
        have step: "while_loop remote num v = while_loop remote num ?v'"
          by (rule while_loop_full [OF lt Inr False])
        have "\<exists>p\<ge>page ?v'. fetchData remote p itemsPerPage = Inl err \<and>
           last (calls (snd (while_loop remote num ?v'))) = (p, itemsPerPage)"
          using "1.IH" [OF lt refl Inr refl refl refl False] "1.prems" step
          by (simp add: after_page_def Let_def)
        then show ?thesis unfolding step by auto
      qed
    qed
  qed
qed

subsection \<open>The two ways \<^verbatim>\<open>selectRows\<close> ends after the loop\<close>

lemma selectRows_exception:
  assumes "parseInt (inputValue s) = Some num" "0 < num" "num \<le> totalRecords s"
    and "while_loop remote num (loop_init s) = (Some err, v)"
  shows "selectRows remote s =
     s\<lparr>loading := False, showDropdown := False, inputValue := [],
       toasts := toasts s @ [selection_failed], requests := requests s @ calls v\<rparr>"
  using assms by (simp add: selectRows_def Let_def show_toast_def)

lemma selectRows_completed:
  assumes "parseInt (inputValue s) = Some num" "0 < num" "num \<le> totalRecords s"
    and "while_loop remote num (loop_init s) = (None, v)"
  shows "selectRows remote s =
     s\<lparr>loading := False, showDropdown := False, inputValue := [],
       selectedIds := updatedIds v,
       isAllSelected := list_all (has (updatedIds v)) (map id' (artworks s)),
       toasts := toasts s @ [selected_rows (itemsSelected v)],
       requests := requests s @ calls v\<rparr>"
  using assms by (simp add: selectRows_def Let_def show_toast_def)

lemma while_loop_second_page_fails:
  assumes "50 \<le> length ds" "50 < N"
  shows "while_loop (failing_after 1 (paged_remote ds)) (int N) (loop_init s) =
     (Some NetworkRequestFailed,
      \<lparr>updatedIds = fold add (map id' (take 50 ds)) (selectedIds s), itemsSelected = 50,
       page = 1, calls = [(0, 50), (1, 50)], taken = [(0, map id' (take 50 ds))]\<rparr>)"
proof -
  let ?R = "failing_after 1 (paged_remote ds)"
  define d where "d = \<lparr>data = take 50 ds,
          pagination = \<lparr>total' = int (length ds), limit = 50, offset = 0,
             total_pages = int ((length ds + 50 - 1) div 50), current_page = 1\<rparr>\<rparr>"
  define v1 where "v1 = \<lparr>updatedIds = fold add (map id' (take 50 ds)) (selectedIds s),
       itemsSelected = 50, page = 1, calls = [(0, 50)], taken = [(0, map id' (take 50 ds))]\<rparr>"
  have f0: "fetchData ?R (page (loop_init s)) itemsPerPage = Inr d"
    by (simp add: fetchData_failing_after fetchData_paged loop_init_def itemsPerPage_def d_def)
  have a: "(after_page (int N) d (loop_init s))\<lparr>page := page (loop_init s) + 1\<rparr> = v1"
    using assms
    by (simp add: after_page_def Let_def loop_init_def itemsPerPage_def min_absorb2 d_def v1_def)
  have "while_loop ?R (int N) (loop_init s) = while_loop ?R (int N) v1"
    using while_loop_full [OF _ f0, of "int N"] assms unfolding a
    by (simp add: loop_init_def itemsPerPage_def d_def)
  also have "\<dots> = (Some NetworkRequestFailed, v1\<lparr>calls := calls v1 @ [(page v1, itemsPerPage)]\<rparr>)"
    using assms by (intro while_loop_error) (simp_all add: fetchData_failing_after v1_def)
  finally show ?thesis by (simp add: v1_def itemsPerPage_def)
qed

subsection \<open>A fetch that fails during the scan\<close>

text \<open>
  C2 as the spec states it: after a fetch has failed during the scan, the selection set
  holds the identifiers merged from the pages fetched before. It does not. With 128
  records, \<^verbatim>\<open>75\<close> in the input field and a remote end that fails from the second page
  on, the loop has merged the fifty identifiers of the first page into its local copy
  \<^verbatim>\<open>updatedIds\<close> when the exception leaves it, and the selection set of the component
  is still empty afterwards.
\<close>

theorem selectRows_partial_update_counterexample:
  "parseInt (inputValue scenario_128) = Some 75 \<and> 75 \<le> totalRecords scenario_128 \<and>
   fst (while_loop (failing_after 1 (paged_remote (sample_dataset 128))) 75 (loop_init scenario_128))
     = Some NetworkRequestFailed \<and>
   set (updatedIds (snd (while_loop (failing_after 1 (paged_remote (sample_dataset 128))) 75
         (loop_init scenario_128)))) = set (map id' (page_of (sample_dataset 128) 0)) \<and>
   length (page_of (sample_dataset 128) 0) = 50 \<and>
   selectedIds (selectRows (failing_after 1 (paged_remote (sample_dataset 128))) scenario_128) = [] \<and>
   \<not> set (map id' (page_of (sample_dataset 128) 0))
       \<subseteq> set (selectedIds (selectRows (failing_after 1 (paged_remote (sample_dataset 128))) scenario_128))"
proof -
  have l: "while_loop (failing_after 1 (paged_remote (sample_dataset 128))) (int 75)
      (loop_init scenario_128) =
     (Some NetworkRequestFailed,
      \<lparr>updatedIds = fold add (map id' (take 50 (sample_dataset 128))) (selectedIds scenario_128),
       itemsSelected = 50, page = 1, calls = [(0, 50), (1, 50)],
       taken = [(0, map id' (take 50 (sample_dataset 128)))]\<rparr>)"
    by (rule while_loop_second_page_fails) (simp_all add: sample_dataset_length)
  have p: "parseInt (inputValue scenario_128) = Some 75"
    by (simp add: scenario_128_fields parseInt_75)
  have pg: "page_of (sample_dataset 128) 0 = take 50 (sample_dataset 128)"
    by (simp add: page_of_def itemsPerPage_def)
  have len: "length (page_of (sample_dataset 128) 0) = 50"
    by (simp add: pg sample_dataset_length)
  then have ne: "set (map id' (page_of (sample_dataset 128) 0)) \<noteq> {}"
    by auto
  have s: "selectedIds (selectRows (failing_after 1 (paged_remote (sample_dataset 128))) scenario_128) = []"
    using selectRows_exception [OF p _ _ l [simplified]]
    by (simp add: scenario_128_fields)
  show ?thesis using p l len ne s
    by (simp add: scenario_128_fields set_fold_add pg)
qed


text \<open>
  C2, amended. For a valid input, when a fetch fails during the scan the operation ends
  with the error notification \<^verbatim>\<open>Selection failed\<close> and the selection set and the
  flag are as before the operation: \<^verbatim>\<open>setSelectedIds\<close> is only reached after the
  loop has completed, so what the loop merged into its local copy is dropped. The popover
  is closed and the input field is emptied.
\<close>

theorem selectRows_fetch_failure:
  assumes "parseInt (inputValue s) = Some num" and "0 < num" and "num \<le> totalRecords s"
    and "fst (while_loop remote num (loop_init s)) = Some err"
  shows "selectRows remote s =
     s\<lparr>loading := False, showDropdown := False, inputValue := [],
       toasts := toasts s @ [selection_failed],
       requests := requests s @ calls (snd (while_loop remote num (loop_init s)))\<rparr> \<and>
     selectedIds (selectRows remote s) = selectedIds s \<and>
     isAllSelected (selectRows remote s) = isAllSelected s \<and>
     severity selection_failed = Error"
proof -
  obtain v where "while_loop remote num (loop_init s) = (Some err, v)"
    using assms(4) by (cases "while_loop remote num (loop_init s)") simp
  from selectRows_exception [OF assms(1-3) this] this show ?thesis
    by (simp add: selection_failed_def)
qed

theorem selectRows_fetch_failure_witness:
  "parseInt (inputValue scenario_128) = Some 75 \<and> (0::int) < 75 \<and>
   75 \<le> totalRecords scenario_128 \<and>
   fst (while_loop (failing_after 1 (paged_remote (sample_dataset 128))) 75 (loop_init scenario_128))
     = Some NetworkRequestFailed \<and>
   selectRows (failing_after 1 (paged_remote (sample_dataset 128))) scenario_128 =
     scenario_128\<lparr>inputValue := [], toasts := [selection_failed],
       requests := [(0, 10), (0, 50), (1, 50)]\<rparr>"
proof -
  have l: "while_loop (failing_after 1 (paged_remote (sample_dataset 128))) (int 75)
      (loop_init scenario_128) =
     (Some NetworkRequestFailed,
      \<lparr>updatedIds = fold add (map id' (take 50 (sample_dataset 128))) (selectedIds scenario_128),
       itemsSelected = 50, page = 1, calls = [(0, 50), (1, 50)],
       taken = [(0, map id' (take 50 (sample_dataset 128)))]\<rparr>)"
    by (rule while_loop_second_page_fails) (simp_all add: sample_dataset_length)
  have p: "parseInt (inputValue scenario_128) = Some 75"
    by (simp add: scenario_128_fields parseInt_75)
  have f: "fst (while_loop (failing_after 1 (paged_remote (sample_dataset 128))) 75
      (loop_init scenario_128)) = Some NetworkRequestFailed"
    using l by simp
  have e: "scenario_128\<lparr>loading := False, showDropdown := False\<rparr> = scenario_128"
    by (simp add: scenario_128_def loadPage_def Let_def fetchData_paged
        updateSelectAllStatus_def init_def)
  from selectRows_fetch_failure [OF p _ _ f] p f l e show ?thesis
    by (simp add: scenario_128_fields) 
qed

subsection \<open>Selecting the first \<open>N\<close> rows\<close>

lemma pages_needed_75: "pages_needed 75 = 2"
  by (simp add: pages_needed_def itemsPerPage_def)

lemma fold_add_fresh: "distinct ys \<Longrightarrow> set ys \<inter> set xs = {} \<Longrightarrow> fold add ys xs = xs @ ys"
  by (induction ys arbitrary: xs) (auto simp: add_def)

lemma distinct_take_ids: "distinct (map id' ds) \<Longrightarrow> distinct (map id' (take n ds))"
  by (simp add: take_map [symmetric] distinct_take)

lemma while_loop_paged_0:
  assumes "N \<le> length ds" "0 < N"
  shows "(case while_loop (paged_remote ds) (int N) (loop_init s) of (exn, w) \<Rightarrow>
     exn = None \<and>
     updatedIds w = fold add (map id' (take N ds)) (selectedIds s) \<and>
     itemsSelected w = N \<and>
     calls w = map (\<lambda>q. (q, 50)) [0..<pages_needed N] \<and>
     taken w = map (\<lambda>q. (q, map id' (take (min (N - q * 50) 50) (drop (q * 50) ds))))
                     [0..<pages_needed N])"
  using while_loop_paged [of N ds "loop_init s"] assms
  by (simp add: loop_init_def)

lemma taken_prefix:
  "j \<le> pages_needed N \<Longrightarrow>
   concat (map (\<lambda>q. map id' (take (min (N - q * 50) 50) (drop (q * 50) ds))) [0..<j]) =
   map id' (take (min N (j * 50)) ds)"
proof (induction j)
  case 0
  then show ?case by simp
next
  case (Suc j)
  then have lt: "j * 50 < N" by (simp add: pages_needed_def itemsPerPage_def)
  have "min N (Suc j * 50) = j * 50 + min (N - j * 50) 50"
    using lt by (auto simp add: min_def)
  then have "take (min N (Suc j * 50)) ds = take (j * 50 + min (N - j * 50) 50) ds"
    by (simp only:)
  also have "\<dots> = take (j * 50) ds @ take (min (N - j * 50) 50) (drop (j * 50) ds)"
    by (simp only: take_add)
  finally show ?case using Suc lt by (simp add: min_absorb2)
qed

lemma taken_prefix_all:
  "concat (map snd (take j (map (\<lambda>q. (q, map id' (take (min (N - q * 50) 50) (drop (q * 50) ds))))
       [0..<pages_needed N]))) =
   map id' (take (min N (j * 50)) ds)"
proof (cases "j \<le> pages_needed N")
  case True
  then have "take j [0..<pages_needed N] = [0..<j]"
    by (simp add: take_upt)
  then show ?thesis
    using taken_prefix [OF True, of ds]
    by (simp only: take_map map_map comp_def snd_conv)
next
  case False
  then have "pages_needed N \<le> j" by simp
  moreover from this have "N \<le> j * 50" by (simp add: pages_needed_def itemsPerPage_def)
  moreover have "N \<le> pages_needed N * 50" by (simp add: pages_needed_def itemsPerPage_def)
  ultimately show ?thesis
    using taken_prefix [of "pages_needed N" N ds]
    by (simp add: comp_def min_absorb1)
qed

lemma take_min_length: "take (min n (length xs)) xs = take n xs"
  by (cases "n \<le> length xs") (simp_all add: min_def)

lemma take_page: "take (min (N - q * 50) (length (page_of ds q))) (page_of ds q) =
   take (min (N - q * 50) 50) (drop (q * 50) ds)"
  by (simp only: take_min_length) (simp add: page_of_def itemsPerPage_def)

lemma parseInt_128: "parseInt ''128'' = Some 128"
  by (simp add: parseInt_defs)

lemma scenario_full_fields:
  "inputValue scenario_full = ''128''" "totalRecords scenario_full = 128"
  "selectedIds scenario_full = [3]" "requests scenario_full = [(0, 10)]"
  by (simp_all add: scenario_full_def loadPage_def Let_def fetchData_paged updateSelectAllStatus_def
      handleCheckbox_def add_def init_def sample_dataset_length)

lemma page_of_0: "page_of ds 0 = take 50 ds"
  by (simp add: page_of_def itemsPerPage_def)

lemma page_of_1: "page_of ds (Suc 0) = take 50 (drop 50 ds)"
  by (simp add: page_of_def itemsPerPage_def)

text \<open>
  C1. The remote end serves a dataset \<open>ds\<close> with distinct identifiers, and the input
  field holds a positive \<open>N\<close> that exceeds neither the total record count of the
  component nor the length of the dataset; the selection set before is arbitrary. Then
  the loop of \<^verbatim>\<open>selectRows\<close> ends without an exception and
  \<^item> it fetches the pages \<open>0, 1, \<dots>\<close> up to the last of the \<open>pages_needed N\<close>
    pages that hold the first \<open>N\<close> records, in this order and with page size 50, and
    these are the requests that \<^verbatim>\<open>selectRows\<close> adds to the ones made before;
  \<^item> from page \<open>q\<close> it takes the first \<open>min (N - 50 q) (length of the page)\<close>
    identifiers, \<open>50 q\<close> being the number taken from the pages before, as the next line
    says: what has been taken from the first \<open>q\<close> pages fetched is the first
    \<open>min N (50 q)\<close> identifiers of the dataset;
  \<^item> it stops with \<open>N\<close> identifiers taken, which are the first \<open>N\<close> identifiers of
    the dataset in their order, all different;
  \<^item> the selection set afterwards is the one before with these identifiers added, and
    it has at least \<open>N\<close> members.
\<close>

theorem selectRows_first_N:
  assumes "distinct (map id' ds)" and "parseInt (inputValue s) = Some (int N)"
    and "0 < N" and "int N \<le> totalRecords s" and "N \<le> length ds"
  shows "case while_loop (paged_remote ds) (int N) (loop_init s) of (exn, v) \<Rightarrow>
     exn = None \<and>
     calls v = map (\<lambda>q. (q, 50)) [0..<pages_needed N] \<and>
     taken v = map (\<lambda>q. (q, map id' (take (min (N - q * 50) (length (page_of ds q))) (page_of ds q))))
                 [0..<pages_needed N] \<and>
     (\<forall>q. concat (map snd (take q (taken v))) = map id' (take (min N (q * 50)) ds)) \<and>
     itemsSelected v = N \<and>
     concat (map snd (taken v)) = map id' (take N ds) \<and>
     distinct (map id' (take N ds)) \<and> length (map id' (take N ds)) = N \<and>
     requests (selectRows (paged_remote ds) s) = requests s @ calls v \<and>
     selectedIds (selectRows (paged_remote ds) s) = fold add (map id' (take N ds)) (selectedIds s) \<and>
     set (selectedIds (selectRows (paged_remote ds) s)) =
       set (selectedIds s) \<union> set (map id' (take N ds)) \<and>
     N \<le> card (set (selectedIds (selectRows (paged_remote ds) s)))"
proof -
  obtain exn v where r: "while_loop (paged_remote ds) (int N) (loop_init s) = (exn, v)"
    by (cases "while_loop (paged_remote ds) (int N) (loop_init s)")
  from while_loop_paged_0 [OF assms(5,3), of s] r
  have l: "exn = None" "updatedIds v = fold add (map id' (take N ds)) (selectedIds s)"
    "itemsSelected v = N" "calls v = map (\<lambda>q. (q, 50)) [0..<pages_needed N]"
    "taken v = map (\<lambda>q. (q, map id' (take (min (N - q * 50) 50) (drop (q * 50) ds))))
                     [0..<pages_needed N]"
    by simp_all
  have pre: "concat (map snd (take q (taken v))) = map id' (take (min N (q * 50)) ds)" for q
    unfolding l(5) by (rule taken_prefix_all)
  have "take (pages_needed N) (taken v) = taken v" by (simp add: l(5))
  moreover have "N \<le> pages_needed N * 50" by (simp add: pages_needed_def itemsPerPage_def)
  ultimately have all: "concat (map snd (taken v)) = map id' (take N ds)"
    using pre [of "pages_needed N"] by (simp add: min_absorb1)
  have d: "distinct (map id' (take N ds))" by (rule distinct_take_ids [OF assms(1)])
  have len: "length (map id' (take N ds)) = N" using assms(5) by simp
  have num: "(0::int) < int N" using assms(3) by simp
  from selectRows_completed [OF assms(2) num assms(4)] r l(1)
  have s': "selectRows (paged_remote ds) s =
     s\<lparr>loading := False, showDropdown := False, inputValue := [],
       selectedIds := updatedIds v,
       isAllSelected := list_all (has (updatedIds v)) (map id' (artworks s)),
       toasts := toasts s @ [selected_rows (itemsSelected v)],
       requests := requests s @ calls v\<rparr>"
    by simp
  have sel: "selectedIds (selectRows (paged_remote ds) s) =
      fold add (map id' (take N ds)) (selectedIds s)"
    by (simp add: s' l(2))
  have "card (set (map id' (take N ds))) = N"
    using d len by (simp only: distinct_card)
  moreover have "set (map id' (take N ds)) \<subseteq> set (selectedIds (selectRows (paged_remote ds) s))"
    by (simp add: sel set_fold_add)
  ultimately have card: "N \<le> card (set (selectedIds (selectRows (paged_remote ds) s)))"
    using card_mono [of "set (selectedIds (selectRows (paged_remote ds) s))" "set (map id' (take N ds))"]
    by simp
  have tk: "taken v = map (\<lambda>q. (q, map id' (take (min (N - q * 50) (length (page_of ds q))) (page_of ds q))))
                 [0..<pages_needed N]"
    by (simp only: l(5) take_page)
  show ?thesis
    unfolding r using l(1,3,4) tk pre all d len sel card
    by (simp add: s' set_fold_add)
qed


theorem selectRows_first_N_witness:
  "distinct (map id' (sample_dataset 128)) \<and>
   parseInt (inputValue scenario_full) = Some (int 128) \<and> (0::nat) < 128 \<and>
   int 128 \<le> totalRecords scenario_full \<and> 128 \<le> length (sample_dataset 128) \<and>
   selectedIds scenario_full = [3] \<and>
   requests (selectRows (paged_remote (sample_dataset 128)) scenario_full) =
     [(0, 10), (0, 50), (1, 50), (2, 50)] \<and>
   set (selectedIds (selectRows (paged_remote (sample_dataset 128)) scenario_full)) =
     set (map id' (sample_dataset 128)) \<and>
   128 \<le> card (set (selectedIds (selectRows (paged_remote (sample_dataset 128)) scenario_full)))"
proof -
  have p: "parseInt (inputValue scenario_full) = Some (int 128)"
    by (simp add: scenario_full_fields parseInt_128)
  have t: "int 128 \<le> totalRecords scenario_full"
    by (simp add: scenario_full_fields)
  have l: "128 \<le> length (sample_dataset 128)"
    by (simp add: sample_dataset_length)
  have up: "[0..<3] = [0, Suc 0, 2]" by (simp add: upt_rec)
  have k: "pages_needed 128 = 3" by (simp add: pages_needed_def itemsPerPage_def)
  have m: "(3::int) \<in> set (map id' (sample_dataset 128))"
    by (simp add: sample_dataset_def sample_artwork_def comp_def image_iff) 
  from selectRows_first_N [OF sample_dataset_distinct p _ t l] p t l m
  show ?thesis
    by (auto simp add: sample_dataset_length sample_dataset_distinct scenario_full_fields k up
        split: prod.splits)
qed


text \<open>
  C8. The dataset has 128 records with distinct identifiers, the input field holds
  \<^verbatim>\<open>75\<close> and nothing is selected. Then \<^verbatim>\<open>selectRows\<close> fetches page 0, which has
  50 records, and takes the 50, fetches page 1, which has 50 records, and takes the
  first 25, and fetches no other page; the selection set afterwards consists of the first
  75 identifiers of the dataset, 75 different ones.
\<close>

theorem selectRows_75_of_128:
  assumes "length ds = 128" and "distinct (map id' ds)" and "inputValue s = ''75''"
    and "totalRecords s = 128" and "selectedIds s = []"
  shows "case while_loop (paged_remote ds) 75 (loop_init s) of (exn, v) \<Rightarrow>
     exn = None \<and> calls v = [(0, 50), (1, 50)] \<and>
     length (page_of ds 0) = 50 \<and> length (page_of ds 1) = 50 \<and>
     taken v = [(0, map id' (take 50 (page_of ds 0))), (1, map id' (take 25 (page_of ds 1)))] \<and>
     itemsSelected v = 75 \<and>
     requests (selectRows (paged_remote ds) s) = requests s @ [(0, 50), (1, 50)] \<and>
     selectedIds (selectRows (paged_remote ds) s) = map id' (take 75 ds) \<and>
     distinct (selectedIds (selectRows (paged_remote ds) s)) \<and>
     length (selectedIds (selectRows (paged_remote ds) s)) = 75 \<and>
     card (set (selectedIds (selectRows (paged_remote ds) s))) = 75"
proof -
  obtain exn v where r: "while_loop (paged_remote ds) (int 75) (loop_init s) = (exn, v)"
    by (cases "while_loop (paged_remote ds) (int 75) (loop_init s)")
  have up: "[0..<2] = [0, Suc 0]" by (simp add: upt_rec)
  from while_loop_paged_0 [of 75 ds s] r assms(1,5)
  have l: "exn = None" "updatedIds v = fold add (map id' (take 75 ds)) []"
    "itemsSelected v = 75" "calls v = [(0, 50), (1, 50)]"
    "taken v = [(0, map id' (take 50 ds)), (1, map id' (take 25 (drop 50 ds)))]"
    by (simp_all add: pages_needed_75 up)
  have d: "distinct (map id' (take 75 ds))" by (rule distinct_take_ids [OF assms(2)])
  have u: "updatedIds v = map id' (take 75 ds)"
    using fold_add_fresh [OF d, of "[]"] by (simp add: l(2))
  have p: "parseInt (inputValue s) = Some 75" by (simp add: assms(3) parseInt_75)
  have r': "while_loop (paged_remote ds) 75 (loop_init s) = (None, v)"
    using r l(1) by simp
  from selectRows_completed [OF p _ _ r'] assms(4)
  have s': "selectRows (paged_remote ds) s =
     s\<lparr>loading := False, showDropdown := False, inputValue := [],
       selectedIds := updatedIds v,
       isAllSelected := list_all (has (updatedIds v)) (map id' (artworks s)),
       toasts := toasts s @ [selected_rows (itemsSelected v)],
       requests := requests s @ calls v\<rparr>"
    by simp
  have len: "length (map id' (take 75 ds)) = 75" using assms(1) by simp
  have card: "card (set (map id' (take 75 ds))) = 75"
    using d len by (simp only: distinct_card)
  have pl: "length (page_of ds 0) = 50" "length (page_of ds 1) = 50"
    using assms(1) by (simp_all add: page_of_0 page_of_1)
  have tk: "take 50 (page_of ds 0) = take 50 ds" "take 25 (page_of ds (Suc 0)) = take 25 (drop 50 ds)"
    by (simp_all add: page_of_0 page_of_1)
  show ?thesis
    using r l(1,3,4,5) pl d card len
    by (simp add: s' u tk)
qed

theorem selectRows_75_of_128_witness:
  "length (sample_dataset 128) = 128 \<and> distinct (map id' (sample_dataset 128)) \<and>
   inputValue scenario_128 = ''75'' \<and> totalRecords scenario_128 = 128 \<and>
   selectedIds scenario_128 = [] \<and>
   requests (selectRows (paged_remote (sample_dataset 128)) scenario_128) =
     [(0, 10), (0, 50), (1, 50)] \<and>
   selectedIds (selectRows (paged_remote (sample_dataset 128)) scenario_128) = map int [1..<76] \<and>
   card (set (selectedIds (selectRows (paged_remote (sample_dataset 128)) scenario_128))) = 75"
proof -
  have ids: "map id' (take 75 (sample_dataset 128)) = map int [1..<76]"
    by (simp add: sample_dataset_def sample_artwork_def take_map take_upt comp_def)
  obtain exn v where r:
    "while_loop (paged_remote (sample_dataset 128)) 75 (loop_init scenario_128) = (exn, v)"
    by (cases "while_loop (paged_remote (sample_dataset 128)) 75 (loop_init scenario_128)")
  from selectRows_75_of_128 [OF sample_dataset_length sample_dataset_distinct
      scenario_128_fields(1,2,3)]
  have c: "requests (selectRows (paged_remote (sample_dataset 128)) scenario_128) =
      requests scenario_128 @ [(0, 50), (1, 50)]"
    "selectedIds (selectRows (paged_remote (sample_dataset 128)) scenario_128) =
      map id' (take 75 (sample_dataset 128))"
    "card (set (selectedIds (selectRows (paged_remote (sample_dataset 128)) scenario_128))) = 75"
    unfolding r prod.case by blast+
  have q: "requests (selectRows (paged_remote (sample_dataset 128)) scenario_128) =
     [(0, 10), (0, 50), (1, 50)]"
    by (simp add: c(1) scenario_128_fields)
  show ?thesis
    using sample_dataset_length [of 128] sample_dataset_distinct [of 128]
      scenario_128_fields(1,2,3) q c(2) [unfolded ids] c(3)
    by (intro conjI)
qed


subsection \<open>Runs on the sample dataset\<close>

lemma list_all_has_ids: "list_all (has ids) (pageIds xs) = (id' ` set xs \<subseteq> set ids)"
  by (auto simp: list_all_iff has_def pageIds_def)

lemma list_all_has_map: "list_all (has ids) (map id' xs) = (id' ` set xs \<subseteq> set ids)"
  by (auto simp: list_all_iff has_def)

lemma length_pageIds: "length (pageIds xs) = length xs"
  by (simp add: pageIds_def)

lemma loadPage_paged:
  "loadPage (paged_remote ds) p r s =
     s\<lparr>artworks := take r (drop (p * r) ds), currentPage := p, pageSize := r,
       totalRecords := int (length ds), totalPages := int ((length ds + r - 1) div r),
       isAllSelected := (0 < length (take r (drop (p * r) ds)) \<and>
          id' ` set (take r (drop (p * r) ds)) \<subseteq> set (selectedIds s)),
       loading := False, requests := requests s @ [(p, r)]\<rparr>"
  by (simp add: loadPage_def Let_def fetchData_paged updateSelectAllStatus_def
      list_all_has_ids length_pageIds)

lemma selectRows_paged:
  assumes "parseInt (inputValue s) = Some (int N)" and "0 < N" and "int N \<le> totalRecords s"
    and "N \<le> length ds"
  shows "selectRows (paged_remote ds) s =
     s\<lparr>loading := False, showDropdown := False, inputValue := [],
       selectedIds := fold add (map id' (take N ds)) (selectedIds s),
       isAllSelected :=
         (id' ` set (artworks s) \<subseteq> set (fold add (map id' (take N ds)) (selectedIds s))),
       toasts := toasts s @ [selected_rows N],
       requests := requests s @ map (\<lambda>q. (q, 50)) [0..<pages_needed N]\<rparr>"
proof -
  obtain exn v where r: "while_loop (paged_remote ds) (int N) (loop_init s) = (exn, v)"
    by (cases "while_loop (paged_remote ds) (int N) (loop_init s)")
  from while_loop_paged_0 [OF assms(4,2), of s] r
  have l: "exn = None" "updatedIds v = fold add (map id' (take N ds)) (selectedIds s)"
    "itemsSelected v = N" "calls v = map (\<lambda>q. (q, 50)) [0..<pages_needed N]"
    by simp_all
  have num: "(0::int) < int N" using assms(2) by simp
  from selectRows_completed [OF assms(1) num assms(3)] r l(1)
  show ?thesis by (simp add: l list_all_has_map)
qed

lemma sample_ids: "n \<le> m \<Longrightarrow> map id' (take n (sample_dataset m)) = map int [1..<Suc n]"
  by (simp add: sample_dataset_def sample_artwork_def take_map take_upt comp_def del: upt_Suc)





lemma upt_12: "[Suc 0..<13] = [Suc 0, 2, 3, 4, 5, 6, 7, 8, 9, 10, 11, 12]"
  by (simp add: upt_rec)

subsection \<open>Input that \<^verbatim>\<open>selectRows\<close> does not accept\<close>

text \<open>
  C5 as the spec states it: for every input that is not a number \<^verbatim>\<open>selectRows\<close>
  shows a warning, changes no state and fetches no page. The input \<^verbatim>\<open>12abc\<close> is
  not a number, its last three characters being no digits, and \<^verbatim>\<open>parseInt\<close> reads
  12 from it: \<^verbatim>\<open>selectRows\<close> shows no warning but the success notification, fetches
  the first page of 50 records and selects the first twelve rows.
\<close>

theorem selectRows_12abc_counterexample:
  "inputValue scenario_12abc = ''12abc'' \<and> \<not> list_all (isDigit 10) ''12abc'' \<and>
   selectedIds scenario_12abc = [] \<and> toasts scenario_12abc = [] \<and>
   requests scenario_12abc = [(0, 10)] \<and>
   toasts (selectRows (paged_remote (sample_dataset 128)) scenario_12abc) = [selected_rows 12] \<and>
   severity (selected_rows 12) = Success \<and>
   selectedIds (selectRows (paged_remote (sample_dataset 128)) scenario_12abc) =
     [1, 2, 3, 4, 5, 6, 7, 8, 9, 10, 11, 12] \<and>
   requests (selectRows (paged_remote (sample_dataset 128)) scenario_12abc) = [(0, 10), (0, 50)]"
proof -
  have f: "inputValue scenario_12abc = ''12abc''" "selectedIds scenario_12abc = []"
    "toasts scenario_12abc = []" "requests scenario_12abc = [(0, 10)]"
    "totalRecords scenario_12abc = 128"
    by (simp_all add: scenario_12abc_def loadPage_paged init_def sample_dataset_length)
  have d: "\<not> list_all (isDigit 10) ''12abc''"
    by (simp add: isDigit_def digitValue_def)
  have p: "parseInt (inputValue scenario_12abc) = Some (int 12)"
    by (simp add: f parseInt_12abc)
  have k: "pages_needed 12 = 1"
    by (simp add: pages_needed_def itemsPerPage_def)
  from selectRows_paged [OF p, of "sample_dataset 128"]
  have r: "selectRows (paged_remote (sample_dataset 128)) scenario_12abc =
     scenario_12abc\<lparr>loading := False, showDropdown := False, inputValue := [],
       selectedIds := [1, 2, 3, 4, 5, 6, 7, 8, 9, 10, 11, 12],
       isAllSelected := (id' ` set (artworks scenario_12abc) \<subseteq>
         set [1, 2, 3, 4, 5, 6, 7, 8, 9, 10, 11, 12]),
       toasts := [selected_rows 12],
       requests := [(0, 10), (0, 50)]\<rparr>"
    by (simp add: f sample_dataset_length sample_ids upt_12 add_def k)
  show ?thesis
    using f(1) d f(2,3,4) by (simp add: r selected_rows_def)
qed


text \<open>
  C5, amended. When \<^verbatim>\<open>parseInt\<close> reads no number from the input field (its result is
  \<^verbatim>\<open>NaN\<close>: after white space and a sign the input does not begin with a digit), or
  reads zero or a negative number, \<^verbatim>\<open>selectRows\<close> shows the warning
  \<^verbatim>\<open>Invalid input\<close> and changes nothing else: no state variable changes and no page
  is fetched.
\<close>

theorem selectRows_invalid:
  "(case parseInt (inputValue s) of None \<Rightarrow> True | Some n \<Rightarrow> n \<le> 0) \<Longrightarrow>
   selectRows remote s = s\<lparr>toasts := toasts s @ [invalid_input]\<rparr> \<and>
   severity invalid_input = Warn"
  by (auto simp add: selectRows_def show_toast_def invalid_input_def split: option.splits)

theorem selectRows_invalid_witness:
  "parseInt ''abc'' = None \<and> parseInt ''0'' = Some 0 \<and> parseInt ''-5'' = Some (- 5) \<and>
   selectRows (paged_remote []) (init\<lparr>inputValue := ''abc''\<rparr>) =
     init\<lparr>inputValue := ''abc'', toasts := [invalid_input]\<rparr> \<and>
   selectRows (paged_remote []) (init\<lparr>inputValue := ''0''\<rparr>) =
     init\<lparr>inputValue := ''0'', toasts := [invalid_input]\<rparr> \<and>
   selectRows (paged_remote []) (init\<lparr>inputValue := ''-5''\<rparr>) =
     init\<lparr>inputValue := ''-5'', toasts := [invalid_input]\<rparr>"
  using selectRows_invalid [of "init\<lparr>inputValue := ''abc''\<rparr>" "paged_remote []"]
    selectRows_invalid [of "init\<lparr>inputValue := ''0''\<rparr>" "paged_remote []"]
    selectRows_invalid [of "init\<lparr>inputValue := ''-5''\<rparr>" "paged_remote []"]
  by (simp add: parseInt_abc parseInt_0 parseInt_minus_5 init_def)

subsection \<open>The flag for the displayed page\<close>






text \<open>What a successful load and a row's checkbox write into the flag.\<close>

lemma loadPage_flag:
  "fetchData remote p r = Inr d \<Longrightarrow>
   isAllSelected (loadPage remote p r s) =
     (data d \<noteq> [] \<and> id' ` set (data d) \<subseteq> set (selectedIds s))"
  by (simp add: loadPage_def Let_def updateSelectAllStatus_def list_all_has_ids length_pageIds)

lemma handleCheckbox_bound_flag:
  "isAllSelected (handleCheckbox_bound c i checked s) =
     (id' ` set (artworks c) \<subseteq> set (selectedIds (handleCheckbox_bound c i checked s)))"
  by (simp add: handleCheckbox_bound_def handleCheckbox_def Let_def list_all_has_ids)

lemma handleCheckbox_bound_same: "handleCheckbox_bound s i checked s = handleCheckbox i checked s"
  by (simp add: handleCheckbox_bound_def handleCheckbox_def Let_def)
















end
